theory Spec2Isabelle
  imports Main "HOL-Library.Monad_Syntax"
begin

section \<open>JavaScript values\<close>

text \<open>
  The values the logger handles at run time. Numbers are the integers (the configuration
  values and the fields of the examples are integers); an object is the list of its own
  enumerable properties in the order in which the language enumerates them.
\<close>

datatype jsval =
    JUndefined
  | JNull
  | JBool bool
  | JNum int
  | JStr string
  | JArr "jsval list"
  | JObj "(string \<times> jsval) list"

type_synonym jsobj = "(string \<times> jsval) list"

text \<open>\<open>ToBoolean\<close>: what \<open>if (v)\<close>, \<open>!v\<close>, \<open>v ? a : b\<close> and \<open>v || d\<close> test.\<close>

fun truthy :: "jsval \<Rightarrow> bool" where
  "truthy JUndefined = False"
| "truthy JNull = False"
| "truthy (JBool b) = b"
| "truthy (JNum n) = (n \<noteq> 0)"
| "truthy (JStr s) = (s \<noteq> [])"
| "truthy (JArr xs) = True"
| "truthy (JObj kvs) = True"

text \<open>\<open>a || d\<close> is \<open>a\<close> when \<open>a\<close> is truthy, and \<open>d\<close> otherwise.\<close>

definition js_or :: "jsval \<Rightarrow> jsval \<Rightarrow> jsval" where
  "js_or a d = (if truthy a then a else d)"

text \<open>\<open>a === b\<close> on the values above, as a JavaScript boolean.\<close>

definition strict_eq :: "jsval \<Rightarrow> jsval \<Rightarrow> jsval" where
  "strict_eq a b = JBool (a = b)"

text \<open>Reading a property (\<open>o.k\<close>): a property the object does not have reads as undefined.\<close>

definition get_prop :: "jsobj \<Rightarrow> string \<Rightarrow> jsval" where
  "get_prop obj k = (case map_of obj k of None \<Rightarrow> JUndefined | Some v \<Rightarrow> v)"

text \<open>
  The order in which the properties of an object are enumerated: the array indices (the
  decimal numerals below \<open>2^32 - 1\<close>, without leading zeros) in ascending order, then the
  other names in the order of their creation.
\<close>

definition is_digit :: "char \<Rightarrow> bool" where
  "is_digit c = (48 \<le> (of_char c :: nat) \<and> (of_char c :: nat) \<le> 57)"

definition digit_val :: "char \<Rightarrow> nat" where
  "digit_val c = of_char c - 48"

definition index_val :: "string \<Rightarrow> nat" where
  "index_val k = foldl (\<lambda>a c. 10 * a + digit_val c) 0 k"

definition is_index :: "string \<Rightarrow> bool" where
  "is_index k \<longleftrightarrow>
     k \<noteq> [] \<and> list_all is_digit k \<and> (k = ''0'' \<or> hd k \<noteq> CHR ''0'')
     \<and> index_val k < 4294967295"

text \<open>
  Writing a property (\<open>o[k] = v\<close>): an existing key keeps its place and takes the new
  value; a new array index goes after the smaller indices and before everything else;
  any other new key goes last.
\<close>

fun replace_prop :: "string \<Rightarrow> jsval \<Rightarrow> jsobj \<Rightarrow> jsobj" where
  "replace_prop k v [] = []"
| "replace_prop k v (p # ps) = (if fst p = k then (k, v) # ps else p # replace_prop k v ps)"

fun insert_index :: "string \<Rightarrow> jsval \<Rightarrow> jsobj \<Rightarrow> jsobj" where
  "insert_index k v [] = [(k, v)]"
| "insert_index k v (p # ps) =
     (if is_index (fst p) \<and> index_val (fst p) < index_val k then p # insert_index k v ps
      else (k, v) # p # ps)"

definition set_prop :: "string \<Rightarrow> jsval \<Rightarrow> jsobj \<Rightarrow> jsobj" where
  "set_prop k v obj =
     (if k \<in> fst ` set obj then replace_prop k v obj
      else if is_index k then insert_index k v obj
      else obj @ [(k, v)])"

text \<open>Copying a list of properties into an object, one write after the other.\<close>

fun assign_props :: "jsobj \<Rightarrow> jsobj \<Rightarrow> jsobj" where
  "assign_props target [] = target"
| "assign_props target (p # ps) = assign_props (set_prop (fst p) (snd p) target) ps"


subsection \<open>Numbers and strings as text\<close>

definition digit_char :: "nat \<Rightarrow> char" where
  "digit_char d = ''0123456789abcdef'' ! d"

fun digits :: "nat \<Rightarrow> string" where
  "digits n = (if n < 10 then [digit_char n] else digits (n div 10) @ [digit_char (n mod 10)])"

declare digits.simps [simp del]

definition show_int :: "int \<Rightarrow> string" where
  "show_int i = (if i < 0 then CHR ''-'' # digits (nat (- i)) else digits (nat i))"

fun join :: "string \<Rightarrow> string list \<Rightarrow> string" where
  "join sep [] = []"
| "join sep [x] = x"
| "join sep (x # y # ys) = x @ sep @ join sep (y # ys)"

text \<open>
  The own enumerable properties that an object spread \<open>{...v}\<close> and \<open>Object.assign(t, v)\<close>
  copy from \<open>v\<close>: none for undefined, null, a boolean or a number, the indexed characters
  of a string, the indexed elements of an array, the properties of an object.
\<close>

fun indexed :: "nat \<Rightarrow> jsval list \<Rightarrow> jsobj" where
  "indexed i [] = []"
| "indexed i (x # xs) = (digits i, x) # indexed (Suc i) xs"

fun own_props :: "jsval \<Rightarrow> jsobj" where
  "own_props (JObj kvs) = kvs"
| "own_props (JArr xs) = indexed 0 xs"
| "own_props (JStr s) = indexed 0 (map (\<lambda>c. JStr [c]) s)"
| "own_props v = []"

subsection \<open>\<open>JSON.stringify\<close>\<close>

text \<open>
  The compact form, with no indentation. A string is quoted with the escapes of the
  standard; an undefined value is left out of an object, is \<open>null\<close> in an array, and
  has no text by itself.
\<close>

definition quote_char :: "char \<Rightarrow> string" where
  "quote_char c =
     (if c = CHR 0x22 then [CHR 0x5C, CHR 0x22]
      else if c = CHR 0x5C then [CHR 0x5C, CHR 0x5C]
      else if c = CHR 0x08 then [CHR 0x5C, CHR ''b'']
      else if c = CHR 0x09 then [CHR 0x5C, CHR ''t'']
      else if c = CHR 0x0A then [CHR 0x5C, CHR ''n'']
      else if c = CHR 0x0C then [CHR 0x5C, CHR ''f'']
      else if c = CHR 0x0D then [CHR 0x5C, CHR ''r'']
      else if (of_char c :: nat) < 32
        then [CHR 0x5C, CHR ''u'', CHR ''0'', CHR ''0'',
              digit_char (of_char c div 16), digit_char (of_char c mod 16)]
      else [c])"

definition quote :: "string \<Rightarrow> string" where
  "quote s = CHR 0x22 # concat (map quote_char s) @ [CHR 0x22]"

fun serialize :: "jsval \<Rightarrow> string option"
  and serialize_elements :: "jsval list \<Rightarrow> string list"
  and serialize_members :: "(string \<times> jsval) list \<Rightarrow> string list" where
  "serialize JUndefined = None"
| "serialize JNull = Some ''null''"
| "serialize (JBool b) = Some (if b then ''true'' else ''false'')"
| "serialize (JNum n) = Some (show_int n)"
| "serialize (JStr s) = Some (quote s)"
| "serialize (JArr xs) = Some (''['' @ join '','' (serialize_elements xs) @ '']'')"
| "serialize (JObj kvs) = Some (''{'' @ join '','' (serialize_members kvs) @ ''}'')"
| "serialize_elements [] = []"
| "serialize_elements (x # xs) =
     (case serialize x of None \<Rightarrow> ''null'' | Some s \<Rightarrow> s) # serialize_elements xs"
| "serialize_members [] = []"
| "serialize_members (p # ps) =
     (case serialize (snd p) of
        None \<Rightarrow> serialize_members ps
      | Some s \<Rightarrow> (quote (fst p) @ '':'' @ s) # serialize_members ps)"

definition JSON_stringify :: "jsval \<Rightarrow> string option" where
  "JSON_stringify v = serialize v"

text \<open>A template literal \<open>`${x}`\<close> over the result of \<open>JSON.stringify\<close>.\<close>

definition template :: "string option \<Rightarrow> string" where
  "template r = (case r of None \<Rightarrow> ''undefined'' | Some s \<Rightarrow> s)"

section \<open>The clock: \<open>new Date().toISOString()\<close>\<close>

text \<open>
  A time value is the number of milliseconds since 1970-01-01T00:00:00Z. The functions
  below are the date arithmetic of the language standard (Day, DayFromYear,
  YearFromTime, MonthFromTime, DateFromTime, ...), which \<open>toISOString\<close> prints as
  \<open>YYYY-MM-DDTHH:mm:ss.sssZ\<close>, the year with a sign and six digits outside 0..9999.
\<close>

definition msPerDay :: int where "msPerDay = 86400000"
definition Day :: "int \<Rightarrow> int" where "Day t = t div msPerDay"
definition TimeWithinDay :: "int \<Rightarrow> int" where "TimeWithinDay t = t mod msPerDay"

definition DaysInYear :: "int \<Rightarrow> int" where
  "DaysInYear y =
     (if y mod 4 \<noteq> 0 then 365 else if y mod 100 \<noteq> 0 then 366
      else if y mod 400 \<noteq> 0 then 365 else 366)"

definition DayFromYear :: "int \<Rightarrow> int" where
  "DayFromYear y =
     365 * (y - 1970) + (y - 1969) div 4 - (y - 1901) div 100 + (y - 1601) div 400"

lemma div_step:
  fixes a k :: int
  assumes "0 < k"
  shows "(a + 1) div k = a div k + (if (a + 1) mod k = 0 then 1 else 0)"
proof -
  have a: "a = k * (a div k) + a mod k" by simp
  have r: "0 \<le> a mod k" "a mod k < k" using assms by simp_all
  show ?thesis
  proof (cases "a mod k + 1 = k")
    case True
    have "k * (a div k + 1) = k * (a div k) + k" by (simp add: algebra_simps)
    with a True have e: "a + 1 = k * (a div k + 1) + 0" by linarith
    have "(a + 1) div k = a div k + 1"
      by (rule int_div_pos_eq [OF e]) (use assms in simp_all)
    moreover have "(a + 1) mod k = 0"
      by (rule int_mod_pos_eq [OF e]) (use assms in simp_all)
    ultimately show ?thesis by simp
  next
    case False
    from a have e: "a + 1 = k * (a div k) + (a mod k + 1)" by linarith
    have lt: "a mod k + 1 < k" using False r by linarith
    have "(a + 1) div k = a div k"
      by (rule int_div_pos_eq [OF e]) (use r lt in simp_all)
    moreover have "(a + 1) mod k = a mod k + 1"
      by (rule int_mod_pos_eq [OF e]) (use r lt in simp_all)
    ultimately show ?thesis using r by simp
  qed
qed

lemma mod_shift: "(y - k * c) mod k = y mod k" for y k c :: int
  by algebra

lemma step_arith:
  fixes y a b c a' b' c' :: int and p4 p100 p400 :: bool
  assumes "a' = a + (if p4 then 1 else 0)" "b' = b + (if p100 then 1 else 0)"
    "c' = c + (if p400 then 1 else 0)" "p100 \<Longrightarrow> p4" "p400 \<Longrightarrow> p100"
  shows "365 * (y - 1969) + a' - b' + c' =
    365 * (y - 1970) + a - b + c
      + (if \<not> p4 then 365 else if \<not> p100 then 366 else if \<not> p400 then 365 else 366)"
  using assms by (cases p4; cases p100; cases p400; simp)

lemma DayFromYear_Suc: "DayFromYear (y + 1) = DayFromYear y + DaysInYear y"
proof -
  have m4: "(y - 1968) mod 4 = y mod 4" using mod_shift [of y 4 492] by simp
  have m100: "(y - 1900) mod 100 = y mod 100" using mod_shift [of y 100 19] by simp
  have m400: "(y - 1600) mod 400 = y mod 400" using mod_shift [of y 400 4] by simp
  have d4: "(y - 1968) div 4 = (y - 1969) div 4 + (if y mod 4 = 0 then 1 else 0)"
    using div_step [of 4 "y - 1969"] m4 by simp
  have d100: "(y - 1900) div 100 = (y - 1901) div 100 + (if y mod 100 = 0 then 1 else 0)"
    using div_step [of 100 "y - 1901"] m100 by simp
  have d400: "(y - 1600) div 400 = (y - 1601) div 400 + (if y mod 400 = 0 then 1 else 0)"
    using div_step [of 400 "y - 1601"] m400 by simp
  have c1: "y mod 4 = 0" if "y mod 100 = 0"
  proof -
    from that have "100 dvd y" by (simp add: mod_eq_0_iff_dvd)
    moreover have "(4::int) dvd 100" by simp
    ultimately have "4 dvd y" by (meson dvd_trans)
    then show ?thesis by (simp add: mod_eq_0_iff_dvd)
  qed
  have c2: "y mod 100 = 0" if "y mod 400 = 0"
  proof -
    from that have "400 dvd y" by (simp add: mod_eq_0_iff_dvd)
    moreover have "(100::int) dvd 400" by simp
    ultimately have "100 dvd y" by (meson dvd_trans)
    then show ?thesis by (simp add: mod_eq_0_iff_dvd)
  qed
  have s1: "y + 1 - 1970 = y - 1969" "y + 1 - 1969 = y - 1968" "y + 1 - 1901 = y - 1900"
    "y + 1 - 1601 = y - 1600" by simp_all
  show ?thesis
    unfolding DayFromYear_def DaysInYear_def s1
    by (rule step_arith [OF d4 d100 d400 c1 c2])
qed

lemma DaysInYear_bounds: "365 \<le> DaysInYear y" "DaysInYear y \<le> 366"
  by (simp_all add: DaysInYear_def)

function year_search :: "int \<Rightarrow> int \<Rightarrow> int" where
  "year_search d y =
     (if DayFromYear (y + 1) \<le> d then year_search d (y + 1)
      else if d < DayFromYear y then year_search d (y - 1)
      else y)"
  by pat_completeness auto
termination
proof (relation "measure (\<lambda>(d, y). if d < DayFromYear y then nat (DayFromYear y - d) + 400
                                   else nat (d - DayFromYear y))")
  show "wf (measure (\<lambda>(d, y). if d < DayFromYear y then nat (DayFromYear y - d) + 400
                                   else nat (d - DayFromYear y)))" by simp
next
  fix d y :: int
  assume "DayFromYear (y + 1) \<le> d"
  then show "((d, y + 1), (d, y)) \<in> measure (\<lambda>(d, y). if d < DayFromYear y then nat (DayFromYear y - d) + 400
                                   else nat (d - DayFromYear y))"
    using DayFromYear_Suc[of y] DaysInYear_bounds[of y] by auto
next
  fix d y :: int
  assume "\<not> DayFromYear (y + 1) \<le> d" "d < DayFromYear y"
  then show "((d, y - 1), (d, y)) \<in> measure (\<lambda>(d, y). if d < DayFromYear y then nat (DayFromYear y - d) + 400
                                   else nat (d - DayFromYear y))"
    using DayFromYear_Suc[of "y - 1"] DaysInYear_bounds[of "y - 1"] by auto
qed

declare year_search.simps [simp del]

definition YearFromTime :: "int \<Rightarrow> int" where
  "YearFromTime t = year_search (Day t) (1970 + Day t div 366)"


definition InLeapYear :: "int \<Rightarrow> int" where
  "InLeapYear t = (if DaysInYear (YearFromTime t) = 366 then 1 else 0)"

definition DayWithinYear :: "int \<Rightarrow> int" where
  "DayWithinYear t = Day t - DayFromYear (YearFromTime t)"

definition month_of_day :: "int \<Rightarrow> int \<Rightarrow> int" where
  "month_of_day d l =
     (if d < 31 then 0 else if d < 59 + l then 1 else if d < 90 + l then 2
      else if d < 120 + l then 3 else if d < 151 + l then 4 else if d < 181 + l then 5
      else if d < 212 + l then 6 else if d < 243 + l then 7 else if d < 273 + l then 8
      else if d < 304 + l then 9 else if d < 334 + l then 10 else 11)"

definition MonthFromTime :: "int \<Rightarrow> int" where
  "MonthFromTime t = month_of_day (DayWithinYear t) (InLeapYear t)"

definition date_of_day :: "int \<Rightarrow> int \<Rightarrow> int" where
  "date_of_day d l =
     (let m = month_of_day d l in
      if m = 0 then d + 1 else if m = 1 then d - 30 else if m = 2 then d - 58 - l
      else if m = 3 then d - 89 - l else if m = 4 then d - 119 - l
      else if m = 5 then d - 150 - l else if m = 6 then d - 180 - l
      else if m = 7 then d - 211 - l else if m = 8 then d - 242 - l
      else if m = 9 then d - 272 - l else if m = 10 then d - 303 - l
      else d - 333 - l)"

definition DateFromTime :: "int \<Rightarrow> int" where
  "DateFromTime t = date_of_day (DayWithinYear t) (InLeapYear t)"

definition HourFromTime :: "int \<Rightarrow> int" where "HourFromTime t = (t div 3600000) mod 24"
definition MinFromTime :: "int \<Rightarrow> int" where "MinFromTime t = (t div 60000) mod 60"
definition SecFromTime :: "int \<Rightarrow> int" where "SecFromTime t = (t div 1000) mod 60"
definition msFromTime :: "int \<Rightarrow> int" where "msFromTime t = t mod 1000"

fun pad :: "nat \<Rightarrow> nat \<Rightarrow> string" where
  "pad 0 n = []"
| "pad (Suc k) n = pad k (n div 10) @ [digit_char (n mod 10)]"

definition year_string :: "int \<Rightarrow> string" where
  "year_string y =
     (if 0 \<le> y \<and> y \<le> 9999 then pad 4 (nat y)
      else (if y < 0 then ''-'' else ''+'') @ pad 6 (nat \<bar>y\<bar>))"

definition toISOString :: "int \<Rightarrow> string" where
  "toISOString t =
     year_string (YearFromTime t) @ ''-'' @ pad 2 (nat (MonthFromTime t + 1)) @ ''-''
       @ pad 2 (nat (DateFromTime t)) @ ''T'' @ pad 2 (nat (HourFromTime t)) @ '':''
       @ pad 2 (nat (MinFromTime t)) @ '':'' @ pad 2 (nat (SecFromTime t)) @ ''.''
       @ pad 3 (nat (msFromTime t)) @ ''Z''"

definition number :: "nat \<Rightarrow> string \<Rightarrow> (nat \<times> string) option" where
  "number k s =
     (if k \<le> length s \<and> list_all is_digit (take k s)
      then Some (foldl (\<lambda>a c. 10 * a + digit_val c) 0 (take k s), drop k s)
      else None)"

definition expect :: "char \<Rightarrow> string \<Rightarrow> string option" where
  "expect c s = (case s of [] \<Rightarrow> None | x # xs \<Rightarrow> if x = c then Some xs else None)"

definition parse_year :: "string \<Rightarrow> (int \<times> string) option" where
  "parse_year s =
     (case s of
        [] \<Rightarrow> None
      | c # cs \<Rightarrow>
          if c = CHR ''+'' then map_option (\<lambda>(n, r). (int n, r)) (number 6 cs)
          else if c = CHR ''-'' then
            (case number 6 cs of
               None \<Rightarrow> None
             | Some (n, r) \<Rightarrow> if n = 0 then None else Some (- int n, r))
          else map_option (\<lambda>(n, r). (int n, r)) (number 4 s))"

definition days_before_month :: "int \<Rightarrow> int \<Rightarrow> int" where
  "days_before_month m l =
     (if m = 0 then 0 else if m = 1 then 31 else if m = 2 then 59 + l
      else if m = 3 then 90 + l else if m = 4 then 120 + l else if m = 5 then 151 + l
      else if m = 6 then 181 + l else if m = 7 then 212 + l else if m = 8 then 243 + l
      else if m = 9 then 273 + l else if m = 10 then 304 + l else 334 + l)"

definition DaysInMonth :: "int \<Rightarrow> int \<Rightarrow> int" where
  "DaysInMonth m l =
     (if m = 1 then 28 + l else if m = 3 \<or> m = 5 \<or> m = 8 \<or> m = 10 then 30 else 31)"

definition MakeDay :: "int \<Rightarrow> int \<Rightarrow> int \<Rightarrow> int" where
  "MakeDay y m dt =
     DayFromYear y + days_before_month m (if DaysInYear y = 366 then 1 else 0) + dt - 1"

definition MakeTime :: "int \<Rightarrow> int \<Rightarrow> int \<Rightarrow> int \<Rightarrow> int" where
  "MakeTime h mi s ms = h * 3600000 + mi * 60000 + s * 1000 + ms"

definition MakeDate :: "int \<Rightarrow> int \<Rightarrow> int" where
  "MakeDate day time = day * msPerDay + time"

definition Date_parse :: "string \<Rightarrow> int option" where
  "Date_parse s0 = do {
     (y, s1) \<leftarrow> parse_year s0;
     s2 \<leftarrow> expect CHR ''-'' s1;
     (mo, s3) \<leftarrow> number 2 s2;
     s4 \<leftarrow> expect CHR ''-'' s3;
     (d, s5) \<leftarrow> number 2 s4;
     s6 \<leftarrow> expect CHR ''T'' s5;
     (h, s7) \<leftarrow> number 2 s6;
     s8 \<leftarrow> expect CHR '':'' s7;
     (mi, s9) \<leftarrow> number 2 s8;
     s10 \<leftarrow> expect CHR '':'' s9;
     (sec, s11) \<leftarrow> number 2 s10;
     s12 \<leftarrow> expect CHR ''.'' s11;
     (ms, s13) \<leftarrow> number 3 s12;
     s14 \<leftarrow> expect CHR ''Z'' s13;
     if s14 = [] \<and> 1 \<le> mo \<and> mo \<le> 12 \<and> 1 \<le> d
        \<and> int d \<le> DaysInMonth (int mo - 1) (if DaysInYear y = 366 then 1 else 0)
        \<and> h \<le> 23 \<and> mi \<le> 59 \<and> sec \<le> 59
     then Some (MakeDate (MakeDay y (int mo - 1) (int d))
                  (MakeTime (int h) (int mi) (int sec) (int ms)))
     else None
   }"


text \<open>
  The time values of a \<open>Date\<close>: at most 8.64e15 milliseconds from the epoch on either side.
  The clock \<open>new Date()\<close> always reads one.
\<close>

definition valid_time :: "int \<Rightarrow> bool" where
  "valid_time t \<longleftrightarrow> - 8640000000000000 \<le> t \<and> t \<le> 8640000000000000"

section \<open>The logger\<close>

subsection \<open>State\<close>

text \<open>
  axios, axios-retry and p-queue are libraries outside the repository. Their objects are
  modelled by what the logger hands them: the retry configuration of the client, the
  limits of the queue, and the tasks added to it, in the order of addition. A task
  \<open>() => this._sendEvent(event)\<close> is represented by its event.
\<close>

datatype error = TypeError string

record axios_client =
  cl_retries :: jsval
  cl_retryDelay :: jsval

record PQueue =
  pq_concurrency :: jsval
  pq_intervalCap :: jsval
  pq_interval :: jsval
  pq_tasks :: "jsval list"

definition axios_create :: axios_client where
  "axios_create = \<lparr>cl_retries = JUndefined, cl_retryDelay = JUndefined\<rparr>"

text \<open>
  \<open>axiosRetry(client, {retries: r, retryDelay: () => d})\<close>: the callback ignores its
  arguments, so it is recorded as the value it returns on every call.
\<close>

definition axiosRetry :: "axios_client \<Rightarrow> jsval \<Rightarrow> jsval \<Rightarrow> axios_client" where
  "axiosRetry c r d = c\<lparr>cl_retries := r, cl_retryDelay := d\<rparr>"

definition PQueue_new :: "jsval \<Rightarrow> jsval \<Rightarrow> jsval \<Rightarrow> PQueue" where
  "PQueue_new c cap i =
     \<lparr>pq_concurrency = c, pq_intervalCap = cap, pq_interval = i, pq_tasks = []\<rparr>"

definition PQueue_add :: "PQueue \<Rightarrow> jsval \<Rightarrow> PQueue" where
  "PQueue_add q event = q\<lparr>pq_tasks := pq_tasks q @ [event]\<rparr>"

record logstash =
  url :: string
  tags :: "string list"
  level :: string
  maxRetries :: jsval
  retryDelay :: jsval
  concurrency :: jsval
  maxMessagesPerSecond :: jsval
  muteConsole :: jsval
  client :: axios_client
  queue :: PQueue

datatype stream = Info | Warn | Error

record world =
  inst :: logstash
  console :: "(stream \<times> string) list"

text \<open>
  The ambient globals \<open>log\<close> reads: the clock, and \<open>navigator\<close> and \<open>location\<close>, which
  exist in a browser only (\<open>None\<close> is \<open>typeof x === "undefined"\<close>).
\<close>

record env =
  now :: int
  navigator :: "jsobj option"
  location :: "jsobj option"

text \<open>
  The receiver of a call of \<open>Logstash\<close>: \<open>new Logstash(...)\<close> runs the body on a fresh
  object and returns that object; a plain call \<open>Logstash(...)\<close> in module code, which is
  strict, runs it with \<open>this\<close> undefined.
\<close>

datatype receiver = This_fresh | This_undefined

definition url_val :: "string option \<Rightarrow> jsval" where
  "url_val u = (case u of None \<Rightarrow> JUndefined | Some s \<Rightarrow> JStr s)"

text \<open>
  A request of the client, and how a promise settles. A rejection carries the message of
  its error.
\<close>

record request =
  req_url :: string
  req_method :: string
  req_headers :: "(string \<times> string) list"
  req_data :: jsval

datatype settled = Resolved jsval | Rejected string

text \<open>
  The first argument of \<open>error\<close>: an instance of \<open>Error\<close>, with its message and its stack,
  or a plain message.
\<close>

datatype err_arg = ErrorInstance string string | PlainMessage string

subsection \<open>\<open>src/index.ts\<close>\<close>

definition Logstash_ts ::
  "receiver \<Rightarrow> string option \<Rightarrow> string list option \<Rightarrow> string option \<Rightarrow> jsobj option
    \<Rightarrow> error + logstash" where
  "Logstash_ts this u tgs lvl options =
     (let tgs = (case tgs of None \<Rightarrow> [] | Some t \<Rightarrow> t);
          lvl = (case lvl of None \<Rightarrow> ''info'' | Some l \<Rightarrow> l)
      in if \<not> truthy (url_val u) then Inl (TypeError ''Invalid URL'')
         else case this of
           This_undefined \<Rightarrow> Inl (TypeError ''Cannot set properties of undefined'')
         | This_fresh \<Rightarrow>
             (case options of
                None \<Rightarrow> Inl (TypeError ''Cannot read properties of undefined'')
              | Some opts \<Rightarrow>
                  let mr = js_or JUndefined (JNum 10);
                      rd = js_or (get_prop opts ''retryDelay'') (JNum 10000);
                      cc = js_or (get_prop opts ''concurrency'') (JNum 25);
                      mps = js_or (get_prop opts ''maxMessagesPerSecond'') (JNum 10);
                      mc = js_or (strict_eq (get_prop opts ''muteConsole'') (JBool True))
                             (JBool False)
                  in Inr \<lparr>url = (case u of None \<Rightarrow> [] | Some a \<Rightarrow> a), tags = tgs, level = lvl, maxRetries = mr,
                           retryDelay = rd, concurrency = cc, maxMessagesPerSecond = mps,
                           muteConsole = mc,
                           client = axiosRetry axios_create mr rd,
                           queue = PQueue_new cc mps (JNum 1000)\<rparr>))"

text \<open>
  \<open>create\<close> calls \<open>Logstash\<close> without \<open>new\<close> and returns the value of the call, which for
  a function with no \<open>return\<close> statement is undefined (\<open>None\<close>).
\<close>

definition create_ts ::
  "string option \<Rightarrow> string list option \<Rightarrow> string option \<Rightarrow> jsobj option
    \<Rightarrow> error + logstash option" where
  "create_ts u tgs lvl options =
     (case Logstash_ts This_undefined u tgs lvl options of
        Inl e \<Rightarrow> Inl e
      | Inr this \<Rightarrow> Inr None)"

text \<open>
  \<open>_sendEvent\<close>: the parameter \<open>http\<close> is what calling the client does with a request;
  \<open>console.warn\<close> returns undefined, which the caught promise then resolves to.
\<close>

definition sendEvent_ts ::
  "(axios_client \<Rightarrow> request \<Rightarrow> settled) \<Rightarrow> logstash \<Rightarrow> jsval
    \<Rightarrow> (stream \<times> string) list \<Rightarrow> settled \<times> (stream \<times> string) list" where
  "sendEvent_ts http this event out =
     (case http (client this)
             \<lparr>req_url = url this, req_method = ''POST'',
              req_headers = [(''Content-Type'', ''application/json'')],
              req_data = event\<rparr> of
        Resolved r \<Rightarrow> (Resolved r, out)
      | Rejected msg \<Rightarrow>
          (Resolved JUndefined,
           out @ [(Warn, ''Could not send message to Logstash - ['' @ msg @ '']'')]))"

text \<open>
  \<open>log\<close>, first part (lines 66-96 of \<open>src/index.ts\<close>): the event it builds.
\<close>

definition log_event_ts :: "env \<Rightarrow> logstash \<Rightarrow> string \<Rightarrow> string \<Rightarrow> jsval \<Rightarrow> jsobj" where
  "log_event_ts e this lvl message flds =
     (let event = [(''level'', JStr lvl), (''fields'', flds), (''message'', JStr message)];
          event = set_prop ''@timestamp'' (JStr (toISOString (now e))) event;
          event = set_prop ''@tags'' (JArr (map JStr (tags this))) event;
          event =
            (case navigator e of
               None \<Rightarrow> event
             | Some nav \<Rightarrow>
                 set_prop ''navigator''
                   (JObj [(''cookieEnabled'', get_prop nav ''cookieEnabled''),
                          (''geoLocation'', get_prop nav ''geolocation''),
                          (''language'', get_prop nav ''language''),
                          (''languages'', get_prop nav ''languages''),
                          (''online'', get_prop nav ''onLine''),
                          (''userAgent'', get_prop nav ''userAgent''),
                          (''platform'', get_prop nav ''platform''),
                          (''vendor'', get_prop nav ''vendor'')]) event);
          event =
            (case location e of
               None \<Rightarrow> event
             | Some loc \<Rightarrow>
                 set_prop ''location''
                   (JObj [(''search'', get_prop loc ''search''),
                          (''pathname'', get_prop loc ''pathname''),
                          (''hostname'', get_prop loc ''hostname''),
                          (''protocol'', get_prop loc ''protocol''),
                          (''port'', get_prop loc ''port''),
                          (''hash'', get_prop loc ''hash''),
                          (''href'', get_prop loc ''href'')]) event)
      in event)"

text \<open>\<open>log\<close>: the event is added to the queue, then echoed unless the logger is muted.\<close>

definition log_ts :: "env \<Rightarrow> string \<Rightarrow> string \<Rightarrow> jsval \<Rightarrow> world \<Rightarrow> world" where
  "log_ts e lvl message flds w =
     (let this = inst w;
          event = log_event_ts e this lvl message flds;
          w = w\<lparr>inst := this\<lparr>queue := PQueue_add (queue this) (JObj event)\<rparr>\<rparr>
      in if truthy (muteConsole this) then w
         else
           let fieldsStr =
                 (if truthy flds then '' - '' @ template (JSON_stringify flds) else []);
               line = message @ fieldsStr
           in if lvl = ''error'' then w\<lparr>console := console w @ [(Error, line)]\<rparr>
              else if lvl = ''warn'' then w\<lparr>console := console w @ [(Warn, line)]\<rparr>
              else w\<lparr>console := console w @ [(Info, line)]\<rparr>)"




text \<open>
  \<open>{...fields, stack: err.stack}\<close>: a new object, into which the properties of \<open>fields\<close>
  are written first and \<open>stack\<close> after them, over a \<open>stack\<close> of \<open>fields\<close>.
\<close>

definition error_ts :: "env \<Rightarrow> err_arg \<Rightarrow> jsval \<Rightarrow> world \<Rightarrow> world" where
  "error_ts e err flds w =
     (case err of
        ErrorInstance msg stk \<Rightarrow>
          log_ts e ''error'' msg
            (JObj (set_prop ''stack'' (JStr stk) (assign_props [] (own_props flds)))) w
      | PlainMessage m \<Rightarrow> log_ts e ''error'' m flds w)"

subsection \<open>The plain JavaScript file (\<open>src/unnamed/part_000\<close>)\<close>

text \<open>
  The constructor is only ever called with \<open>new\<close>; a missing \<open>options\<close> argument takes
  the default \<open>{}\<close>.
\<close>

definition Logstash_js ::
  "string option \<Rightarrow> string list option \<Rightarrow> string option \<Rightarrow> jsobj option
    \<Rightarrow> error + logstash" where
  "Logstash_js u tgs lvl options =
     (let tgs = (case tgs of None \<Rightarrow> [] | Some t \<Rightarrow> t);
          lvl = (case lvl of None \<Rightarrow> ''info'' | Some l \<Rightarrow> l);
          opts = (case options of None \<Rightarrow> [] | Some opts \<Rightarrow> opts)
      in if \<not> truthy (url_val u) then Inl (TypeError ''Invalid URL'')
         else
           let mr = js_or JUndefined (JNum 10);
               rd = js_or (get_prop opts ''retryDelay'') (JNum 10000);
               cc = js_or (get_prop opts ''concurrency'') (JNum 25);
               mps = js_or (get_prop opts ''maxMessagesPerSecond'') (JNum 10);
               mc = js_or (strict_eq (get_prop opts ''muteConsole'') (JBool True))
                      (JBool False)
           in Inr \<lparr>url = (case u of None \<Rightarrow> [] | Some a \<Rightarrow> a), tags = tgs, level = lvl, maxRetries = mr,
                    retryDelay = rd, concurrency = cc, maxMessagesPerSecond = mps,
                    muteConsole = mc,
                    client = axiosRetry axios_create mr rd,
                    queue = PQueue_new cc mps (JNum 1000)\<rparr>)"

definition create_js ::
  "string option \<Rightarrow> string list option \<Rightarrow> string option \<Rightarrow> jsobj option
    \<Rightarrow> error + logstash" where
  "create_js u tgs lvl options = Logstash_js u tgs lvl options"

definition sendEvent_js ::
  "(axios_client \<Rightarrow> request \<Rightarrow> settled) \<Rightarrow> logstash \<Rightarrow> jsval
    \<Rightarrow> (stream \<times> string) list \<Rightarrow> settled \<times> (stream \<times> string) list" where
  "sendEvent_js http this event out =
     (case http (client this)
             \<lparr>req_url = url this, req_method = ''POST'',
              req_headers = [(''Content-Type'', ''application/json'')],
              req_data = event\<rparr> of
        Resolved r \<Rightarrow> (Resolved r, out)
      | Rejected msg \<Rightarrow>
          (Resolved JUndefined,
           out @ [(Warn, ''Could not send message to Logstash - ['' @ msg @ '']'')]))"

text \<open>
  \<open>log\<close>, first part (lines 49-79): the event it builds.
\<close>

definition log_event_js :: "env \<Rightarrow> logstash \<Rightarrow> string \<Rightarrow> string \<Rightarrow> jsval \<Rightarrow> jsobj" where
  "log_event_js e this lvl message flds =
     (let event = [(''level'', JStr lvl), (''fields'', flds), (''message'', JStr message)];
          event = set_prop ''@timestamp'' (JStr (toISOString (now e))) event;
          event = set_prop ''@tags'' (JArr (map JStr (tags this))) event;
          event =
            (case navigator e of
               None \<Rightarrow> event
             | Some nav \<Rightarrow>
                 set_prop ''navigator''
                   (JObj [(''cookieEnabled'', get_prop nav ''cookieEnabled''),
                          (''geoLocation'', get_prop nav ''geolocation''),
                          (''language'', get_prop nav ''language''),
                          (''languages'', get_prop nav ''languages''),
                          (''online'', get_prop nav ''onLine''),
                          (''userAgent'', get_prop nav ''userAgent''),
                          (''platform'', get_prop nav ''platform''),
                          (''vendor'', get_prop nav ''vendor'')]) event);
          event =
            (case location e of
               None \<Rightarrow> event
             | Some loc \<Rightarrow>
                 set_prop ''location''
                   (JObj [(''search'', get_prop loc ''search''),
                          (''pathname'', get_prop loc ''pathname''),
                          (''hostname'', get_prop loc ''hostname''),
                          (''protocol'', get_prop loc ''protocol''),
                          (''port'', get_prop loc ''port''),
                          (''hash'', get_prop loc ''hash''),
                          (''href'', get_prop loc ''href'')]) event)
      in event)"

text \<open>\<open>log\<close>: the event is added to the queue, then echoed unless the logger is muted.\<close>

definition log_js :: "env \<Rightarrow> string \<Rightarrow> string \<Rightarrow> jsval \<Rightarrow> world \<Rightarrow> world" where
  "log_js e lvl message flds w =
     (let this = inst w;
          event = log_event_js e this lvl message flds;
          w = w\<lparr>inst := this\<lparr>queue := PQueue_add (queue this) (JObj event)\<rparr>\<rparr>
      in if truthy (muteConsole this) then w
         else
           let fieldsStr =
                 (if truthy flds then '' - '' @ template (JSON_stringify flds) else []);
               line = message @ fieldsStr
           in if lvl = ''error'' then w\<lparr>console := console w @ [(Error, line)]\<rparr>
              else if lvl = ''warn'' then w\<lparr>console := console w @ [(Warn, line)]\<rparr>
              else w\<lparr>console := console w @ [(Info, line)]\<rparr>)"




text \<open>
  \<open>Object.assign({ stack: err.stack }, fields)\<close>: an object created with \<open>stack\<close>, into
  which the properties of \<open>fields\<close> are then written, over \<open>stack\<close> when \<open>fields\<close> has one.
  The array indices of \<open>fields\<close> are enumerated before \<open>stack\<close>, its other names after.
\<close>

definition error_js :: "env \<Rightarrow> err_arg \<Rightarrow> jsval \<Rightarrow> world \<Rightarrow> world" where
  "error_js e err flds w =
     (case err of
        ErrorInstance msg stk \<Rightarrow>
          log_js e ''error'' msg
            (JObj (assign_props [(''stack'', JStr stk)] (own_props flds))) w
      | PlainMessage m \<Rightarrow> log_js e ''error'' m flds w)"

section \<open>The retrying transport\<close>

text \<open>
  Modelled from the spec: the retry loop of the client, which is the axios-retry library
  and not a file of the repository; the repository only configures it with \<open>retries\<close> and
  \<open>retryDelay\<close>. The spec (4.1): on any request failure the transport retries the same
  request up to \<open>maxRetries\<close> additional times, waiting \<open>retryDelayMs\<close> between attempts,
  and if all attempts fail the operation ends with the final error. The network is a
  function from a request and the number of the attempt (from 0) to how that attempt
  settles; the loop returns the final outcome, the number of attempts made and the
  delays waited.
\<close>

fun retries_of :: "jsval \<Rightarrow> nat" where
  "retries_of (JNum n) = nat n"
| "retries_of v = 0"

fun retry_loop :: "(nat \<Rightarrow> settled) \<Rightarrow> jsval \<Rightarrow> nat \<Rightarrow> nat \<Rightarrow> settled \<times> nat \<times> jsval list" where
  "retry_loop net d 0 i = (net i, Suc i, [])"
| "retry_loop net d (Suc k) i =
     (case net i of
        Resolved r \<Rightarrow> (Resolved r, Suc i, [])
      | Rejected msg \<Rightarrow>
          (case retry_loop net d k (Suc i) of (r, n, ws) \<Rightarrow> (r, n, d # ws)))"

definition retrying_client ::
  "(request \<Rightarrow> nat \<Rightarrow> settled) \<Rightarrow> axios_client \<Rightarrow> request \<Rightarrow> settled \<times> nat \<times> jsval list" where
  "retrying_client net c rq =
     retry_loop (net rq) (cl_retryDelay c) (retries_of (cl_retries c)) 0"

section \<open>A running example\<close>

text \<open>
  The logger that \<open>create("http://localhost:9200", ["app"])\<close> builds, an empty console,
  and a server-side environment at the epoch.
\<close>

definition example_logger :: logstash where
  "example_logger =
     \<lparr>url = ''http://localhost:9200'', tags = [''app''], level = ''info'',
      maxRetries = JNum 10, retryDelay = JNum 10000, concurrency = JNum 25,
      maxMessagesPerSecond = JNum 10, muteConsole = JBool False,
      client = \<lparr>cl_retries = JNum 10, cl_retryDelay = JNum 10000\<rparr>,
      queue = \<lparr>pq_concurrency = JNum 25, pq_intervalCap = JNum 10,
               pq_interval = JNum 1000, pq_tasks = []\<rparr>\<rparr>"

definition example_world :: world where
  "example_world = \<lparr>inst = example_logger, console = []\<rparr>"

definition example_env :: env where
  "example_env = \<lparr>now = 0, navigator = None, location = None\<rparr>"

text \<open>
  The event of the task added last, which after a call of \<open>log\<close> is the event that call
  built, and its \<open>fields\<close> property.
\<close>

definition built_event :: "world \<Rightarrow> jsval" where
  "built_event w = last (pq_tasks (queue (inst w)))"


text \<open>
  The request \<open>_sendEvent\<close> makes for an event, and a world whose logger is the same but
  for \<open>muteConsole\<close>, which is off.
\<close>

definition post_request :: "logstash \<Rightarrow> jsval \<Rightarrow> request" where
  "post_request s ev =
     \<lparr>req_url = url s, req_method = ''POST'',
      req_headers = [(''Content-Type'', ''application/json'')], req_data = ev\<rparr>"

definition unmuted :: "world \<Rightarrow> world" where
  "unmuted w = w\<lparr>inst := (inst w)\<lparr>muteConsole := JBool False\<rparr>\<rparr>"

section \<open>Properties\<close>

subsection \<open>Objects\<close>

lemma map_of_replace_prop:
  "map_of (replace_prop k v kvs) = (if k \<in> fst ` set kvs then (map_of kvs)(k \<mapsto> v) else map_of kvs)"
  by (induction kvs) (auto simp: fun_eq_iff)

lemma map_of_insert_index:
  "k \<notin> fst ` set kvs \<Longrightarrow> map_of (insert_index k v kvs) = (map_of kvs)(k \<mapsto> v)"
  by (induction kvs) (auto simp: fun_eq_iff)

lemma map_of_snoc:
  "k \<notin> fst ` set kvs \<Longrightarrow> map_of (kvs @ [(k, v)]) = (map_of kvs)(k \<mapsto> v)"
proof -
  assume "k \<notin> fst ` set kvs"
  then have n: "map_of kvs k = None" by (simp add: map_of_eq_None_iff)
  show ?thesis
  proof
    fix x
    show "map_of (kvs @ [(k, v)]) x = ((map_of kvs)(k \<mapsto> v)) x"
      using n by (cases "map_of kvs x") (auto simp: map_add_def)
  qed
qed

lemma map_of_set_prop: "map_of (set_prop k v kvs) = (map_of kvs)(k \<mapsto> v)"
proof (cases "k \<in> fst ` set kvs")
  case True
  then show ?thesis by (simp add: set_prop_def map_of_replace_prop)
next
  case False
  then show ?thesis
    by (cases "is_index k") (simp_all add: set_prop_def map_of_insert_index map_of_snoc del: map_of_append)
qed


lemma not_index_Cons: "\<not> is_digit c \<Longrightarrow> \<not> is_index (c # cs)"
  by (simp add: is_index_def)



lemma set_prop_name:
  "\<not> is_digit c \<Longrightarrow> set_prop (c # cs) v kvs =
     (if c # cs \<in> fst ` set kvs then replace_prop (c # cs) v kvs else kvs @ [(c # cs, v)])"
  by (simp add: set_prop_def not_index_Cons)

lemma set_prop_names:
  "set_prop ''stack'' v kvs =
     (if ''stack'' \<in> fst ` set kvs then replace_prop ''stack'' v kvs else kvs @ [(''stack'', v)])"
  "set_prop ''extra'' v kvs =
     (if ''extra'' \<in> fst ` set kvs then replace_prop ''extra'' v kvs else kvs @ [(''extra'', v)])"
  "set_prop ''@timestamp'' v kvs =
     (if ''@timestamp'' \<in> fst ` set kvs then replace_prop ''@timestamp'' v kvs
      else kvs @ [(''@timestamp'', v)])"
  "set_prop ''@tags'' v kvs =
     (if ''@tags'' \<in> fst ` set kvs then replace_prop ''@tags'' v kvs else kvs @ [(''@tags'', v)])"
  "set_prop ''navigator'' v kvs =
     (if ''navigator'' \<in> fst ` set kvs then replace_prop ''navigator'' v kvs
      else kvs @ [(''navigator'', v)])"
  "set_prop ''location'' v kvs =
     (if ''location'' \<in> fst ` set kvs then replace_prop ''location'' v kvs
      else kvs @ [(''location'', v)])"
  by (simp_all add: set_prop_name is_digit_def)








subsection \<open>What a call of \<open>log\<close> leaves behind\<close>

lemma log_ts_tasks:
  "pq_tasks (queue (inst (log_ts e lvl message flds w))) =
     pq_tasks (queue (inst w)) @ [JObj (log_event_ts e (inst w) lvl message flds)]"
  by (simp add: log_ts_def Let_def PQueue_add_def)

lemma log_js_tasks:
  "pq_tasks (queue (inst (log_js e lvl message flds w))) =
     pq_tasks (queue (inst w)) @ [JObj (log_event_js e (inst w) lvl message flds)]"
  by (simp add: log_js_def Let_def PQueue_add_def)

lemma built_event_log_ts:
  "built_event (log_ts e lvl message flds w) = JObj (log_event_ts e (inst w) lvl message flds)"
  by (simp add: built_event_def log_ts_tasks)

lemma built_event_log_js:
  "built_event (log_js e lvl message flds w) = JObj (log_event_js e (inst w) lvl message flds)"
  by (simp add: built_event_def log_js_tasks)

lemma log_event_ts_mute [simp]:
  "log_event_ts e (this\<lparr>muteConsole := m\<rparr>) lvl message flds = log_event_ts e this lvl message flds"
  by (simp add: log_event_ts_def)

lemma log_event_js_mute [simp]:
  "log_event_js e (this\<lparr>muteConsole := m\<rparr>) lvl message flds = log_event_js e this lvl message flds"
  by (simp add: log_event_js_def)





lemma toISOString_epoch: "toISOString 0 = ''1970-01-01T00:00:00.000Z''"
  by code_simp

lemma example_event_ts:
  "log_event_ts example_env example_logger ''error'' ''boom'' JUndefined
     = [(''level'', JStr ''error''), (''fields'', JUndefined), (''message'', JStr ''boom''),
        (''@timestamp'', JStr ''1970-01-01T00:00:00.000Z''), (''@tags'', JArr [JStr ''app''])]"
  by (simp add: log_event_ts_def example_env_def example_logger_def toISOString_epoch
      set_prop_names)

subsection \<open>Construction\<close>

lemma create_js_example:
  "create_js (Some ''http://localhost:9200'') (Some [''app'']) None None = Inr example_logger"
  by (simp add: create_js_def Logstash_js_def url_val_def js_or_def strict_eq_def get_prop_def
      axiosRetry_def axios_create_def PQueue_new_def example_logger_def Let_def)

lemma new_ts_truthy_mute:
  "Logstash_ts This_fresh (Some ''http://localhost:9200'') (Some [''app'']) None
     (Some [(''muteConsole'', JStr ''yes'')]) = Inr example_logger"
  by (simp add: Logstash_ts_def url_val_def js_or_def strict_eq_def get_prop_def
      axiosRetry_def axios_create_def PQueue_new_def example_logger_def Let_def)

lemma new_js_truthy_mute:
  "Logstash_js (Some ''http://localhost:9200'') (Some [''app'']) None
     (Some [(''muteConsole'', JNum 1)]) = Inr example_logger"
  by (simp add: Logstash_js_def url_val_def js_or_def strict_eq_def get_prop_def
      axiosRetry_def axios_create_def PQueue_new_def example_logger_def Let_def)

lemma constructed_js:
  assumes "Logstash_js u tgs lvl options = Inr s"
  shows "maxRetries s = JNum 10 \<and> cl_retries (client s) = maxRetries s
         \<and> cl_retryDelay (client s) = retryDelay s
         \<and> muteConsole s = JBool (get_prop (case options of None \<Rightarrow> [] | Some opts \<Rightarrow> opts) ''muteConsole'' = JBool True)"
proof (cases "truthy (url_val u)")
  case True
  with assms show ?thesis
    by (auto simp: Logstash_js_def Let_def js_or_def strict_eq_def axiosRetry_def axios_create_def)
next
  case False
  with assms show ?thesis by (simp add: Logstash_js_def Let_def)
qed

lemma constructed_ts:
  assumes "Logstash_ts This_fresh u tgs lvl options = Inr s"
  shows "maxRetries s = JNum 10 \<and> cl_retries (client s) = maxRetries s
         \<and> cl_retryDelay (client s) = retryDelay s
         \<and> (\<exists>opts. options = Some opts \<and> muteConsole s = JBool (get_prop opts ''muteConsole'' = JBool True))"
proof (cases "truthy (url_val u)")
  case True
  show ?thesis
  proof (cases options)
    case None
    with assms True show ?thesis by (simp add: Logstash_ts_def Let_def)
  next
    case (Some opts)
    with assms True show ?thesis
      by (auto simp: Logstash_ts_def Let_def js_or_def strict_eq_def axiosRetry_def axios_create_def)
  qed
next
  case False
  with assms show ?thesis by (simp add: Logstash_ts_def Let_def)
qed

text \<open>
  C1. The claim: the factory fails exactly when the URL is missing or empty, and for every
  non-empty URL it returns a logger and never throws. In \<open>src/index.ts\<close> the factory calls
  \<open>Logstash\<close> without \<open>new\<close>: with a non-empty URL the body reaches \<open>this.url = url\<close>
  with \<open>this\<close> undefined and throws a TypeError, so no logger is returned.
\<close>

theorem create_ts_throws_on_valid_url:
  "create_ts (Some ''http://localhost:9200'') (Some [''app'']) (Some ''info'') (Some [])
     = Inl (TypeError ''Cannot set properties of undefined'')"
  by (simp add: create_ts_def Logstash_ts_def url_val_def)

text \<open>
  The same holds for every argument list, while the factory of the JavaScript file, which
  uses \<open>new\<close>, fails exactly on a missing or empty URL.
\<close>

lemma create_ts_never_returns: "\<exists>e. create_ts u tgs lvl options = Inl e"
  by (simp add: create_ts_def Logstash_ts_def Let_def)

lemma create_js_fails_iff:
  "create_js u tgs lvl options = Inl (TypeError ''Invalid URL'') \<longleftrightarrow> u = None \<or> u = Some []"
  "(\<exists>s. create_js u tgs lvl options = Inr s) \<longleftrightarrow> \<not> (u = None \<or> u = Some [])"
  by (auto simp add: create_js_def Logstash_js_def Let_def url_val_def split: option.splits)

text \<open>
  C10. Construction sets \<open>muteConsole\<close> to true only when the option is the boolean
  \<open>true\<close>: the logger built from an options object holds the boolean that says whether
  the option is exactly \<open>true\<close>, in both files. For every other value of the option, a
  truthy one such as \<open>1\<close> or \<open>"yes"\<close> included, a call of \<open>log\<close> on that logger writes a
  line to the console.
\<close>

theorem muteConsole_only_on_true:
  assumes "Logstash_ts This_fresh u tgs lvl (Some opts) = Inr s
           \<or> Logstash_js u tgs lvl (Some opts) = Inr s"
  shows "muteConsole s = JBool (get_prop opts ''muteConsole'' = JBool True)
    \<and> (get_prop opts ''muteConsole'' \<noteq> JBool True \<longrightarrow>
          console (log_ts e l m f \<lparr>inst = s, console = out\<rparr>)
            = out @ [(if l = ''error'' then Error else if l = ''warn'' then Warn else Info,
                      m @ (if truthy f then '' - '' @ template (JSON_stringify f) else []))]
        \<and> console (log_js e l m f \<lparr>inst = s, console = out\<rparr>)
            = out @ [(if l = ''error'' then Error else if l = ''warn'' then Warn else Info,
                      m @ (if truthy f then '' - '' @ template (JSON_stringify f) else []))])"
proof -
  have mc: "muteConsole s = JBool (get_prop opts ''muteConsole'' = JBool True)"
    using assms constructed_ts [of u tgs lvl "Some opts" s]
      constructed_js [of u tgs lvl "Some opts" s]
    by auto
  have "\<not> truthy (muteConsole (inst \<lparr>inst = s, console = out\<rparr>))"
    if "get_prop opts ''muteConsole'' \<noteq> JBool True"
    using that mc by simp
  then show ?thesis
    using mc by (simp add: log_ts_def log_js_def Let_def)
qed

theorem muteConsole_only_on_true_witness:
  "(Logstash_ts This_fresh (Some ''http://localhost:9200'') (Some [''app'']) None
        (Some [(''muteConsole'', JStr ''yes'')]) = Inr example_logger
      \<or> Logstash_js (Some ''http://localhost:9200'') (Some [''app'']) None
        (Some [(''muteConsole'', JStr ''yes'')]) = Inr example_logger)
   \<and> (Logstash_ts This_fresh (Some ''http://localhost:9200'') (Some [''app'']) None
        (Some [(''muteConsole'', JNum 1)]) = Inr example_logger
      \<or> Logstash_js (Some ''http://localhost:9200'') (Some [''app'']) None
        (Some [(''muteConsole'', JNum 1)]) = Inr example_logger)
   \<and> get_prop [(''muteConsole'', JStr ''yes'')] ''muteConsole'' \<noteq> JBool True
   \<and> get_prop [(''muteConsole'', JNum 1)] ''muteConsole'' \<noteq> JBool True
   \<and> muteConsole example_logger = JBool False
   \<and> console (log_ts example_env ''info'' ''up'' JUndefined
                 \<lparr>inst = example_logger, console = []\<rparr>) = [(Info, ''up'')]
   \<and> console (log_js example_env ''info'' ''up'' JUndefined
                 \<lparr>inst = example_logger, console = []\<rparr>) = [(Info, ''up'')]"
proof -
  have h1: "Logstash_ts This_fresh (Some ''http://localhost:9200'') (Some [''app'']) None
        (Some [(''muteConsole'', JStr ''yes'')]) = Inr example_logger
      \<or> Logstash_js (Some ''http://localhost:9200'') (Some [''app'']) None
        (Some [(''muteConsole'', JStr ''yes'')]) = Inr example_logger"
    by (simp add: new_ts_truthy_mute)
  have h2: "Logstash_ts This_fresh (Some ''http://localhost:9200'') (Some [''app'']) None
        (Some [(''muteConsole'', JNum 1)]) = Inr example_logger
      \<or> Logstash_js (Some ''http://localhost:9200'') (Some [''app'']) None
        (Some [(''muteConsole'', JNum 1)]) = Inr example_logger"
    by (simp add: new_js_truthy_mute)
  have g: "get_prop [(''muteConsole'', JStr ''yes'')] ''muteConsole'' \<noteq> JBool True"
    "get_prop [(''muteConsole'', JNum 1)] ''muteConsole'' \<noteq> JBool True"
    by (simp_all add: get_prop_def)
  from muteConsole_only_on_true [OF h1, of example_env "''info''" "''up''" JUndefined "[]"]
    muteConsole_only_on_true [OF h2, of example_env "''info''" "''up''" JUndefined "[]"] g h1 h2
  show ?thesis by simp
qed

subsection \<open>The local echo\<close>

text \<open>
  C8. When \<open>muteConsole\<close> is not set, a call of \<open>log\<close> writes exactly one line: to the
  error stream for level \<open>"error"\<close>, to the warning stream for \<open>"warn"\<close>, to the
  informational stream for every other level. The line is the message, followed by
  \<open>" - "\<close> and the compact JSON of the fields exactly when the fields are truthy, which
  every object is and undefined is not.
\<close>

theorem log_console_line:
  assumes "\<not> truthy (muteConsole (inst w))"
  shows "console (log_ts e lvl message flds w) =
           console w @ [(if lvl = ''error'' then Error else if lvl = ''warn'' then Warn else Info,
                         message @ (if truthy flds then '' - '' @ template (JSON_stringify flds) else []))]
    \<and> console (log_js e lvl message flds w) =
           console w @ [(if lvl = ''error'' then Error else if lvl = ''warn'' then Warn else Info,
                         message @ (if truthy flds then '' - '' @ template (JSON_stringify flds) else []))]
    \<and> truthy (JObj kvs) \<and> \<not> truthy JUndefined"
  using assms by (simp add: log_ts_def log_js_def Let_def)

theorem log_console_line_witness:
  "\<not> truthy (muteConsole (inst example_world))
   \<and> console (log_ts example_env ''warn'' ''disk low'' (JObj [(''free'', JNum 3)]) example_world)
       = [(Warn, ''disk low - {\"free\":3}'')]
   \<and> console (log_js example_env ''error'' ''boom'' JUndefined example_world) = [(Error, ''boom'')]
   \<and> console (log_ts example_env ''trace'' ''hello'' (JObj []) example_world) = [(Info, ''hello - {}'')]"
proof -
  have m: "\<not> truthy (muteConsole (inst example_world))"
    by (simp add: example_world_def example_logger_def)
  have j: "template (JSON_stringify (JObj [(''free'', JNum 3)])) = ''{\"free\":3}''"
    "template (JSON_stringify (JObj [])) = ''{}''"
    by code_simp+
  show ?thesis
    using m log_console_line [OF m, of example_env "''warn''" "''disk low''" "JObj [(''free'', JNum 3)]"]
      log_console_line [OF m, of example_env "''error''" "''boom''" JUndefined]
      log_console_line [OF m, of example_env "''trace''" "''hello''" "JObj []"]
    by (simp add: j example_world_def)
qed

text \<open>
  C9. When \<open>muteConsole\<close> is true, a call of \<open>log\<close>, at any level, leaves the console as it
  was, and the queue is the one the same call leaves on the same logger unmuted: the
  event that call builds is added after the tasks already there. Delivery does not read
  \<open>muteConsole\<close>: \<open>_sendEvent\<close> does the same on the muted and on the unmuted logger.
\<close>

theorem mute_changes_only_the_echo:
  assumes "muteConsole (inst w) = JBool True"
  shows "console (log_ts e lvl message flds w) = console w
    \<and> queue (inst (log_ts e lvl message flds w)) = queue (inst (log_ts e lvl message flds (unmuted w)))
    \<and> pq_tasks (queue (inst (log_ts e lvl message flds w)))
        = pq_tasks (queue (inst w)) @ [built_event (log_ts e lvl message flds (unmuted w))]
    \<and> sendEvent_ts http (inst w) ev out = sendEvent_ts http (inst (unmuted w)) ev out
    \<and> console (log_js e lvl message flds w) = console w
    \<and> queue (inst (log_js e lvl message flds w)) = queue (inst (log_js e lvl message flds (unmuted w)))
    \<and> pq_tasks (queue (inst (log_js e lvl message flds w)))
        = pq_tasks (queue (inst w)) @ [built_event (log_js e lvl message flds (unmuted w))]
    \<and> sendEvent_js http (inst w) ev out = sendEvent_js http (inst (unmuted w)) ev out"
proof -
  have c: "console (log_ts e lvl message flds w) = console w"
    "console (log_js e lvl message flds w) = console w"
    using assms by (simp_all add: log_ts_def log_js_def Let_def)
  have q: "queue (inst (log_ts e lvl message flds w))
             = PQueue_add (queue (inst w)) (JObj (log_event_ts e (inst w) lvl message flds))"
    "queue (inst (log_js e lvl message flds w))
             = PQueue_add (queue (inst w)) (JObj (log_event_js e (inst w) lvl message flds))" for w
    by (simp_all add: log_ts_def log_js_def Let_def)
  have u: "queue (inst (unmuted w)) = queue (inst w)"
    by (simp add: unmuted_def)
  have i: "log_event_ts e (inst (unmuted w)) lvl message flds = log_event_ts e (inst w) lvl message flds"
    "log_event_js e (inst (unmuted w)) lvl message flds = log_event_js e (inst w) lvl message flds"
    by (simp_all add: unmuted_def)
  have s: "sendEvent_ts http (inst w) ev out = sendEvent_ts http (inst (unmuted w)) ev out"
    "sendEvent_js http (inst w) ev out = sendEvent_js http (inst (unmuted w)) ev out"
    by (simp_all add: sendEvent_ts_def sendEvent_js_def unmuted_def)
  show ?thesis
    using s by (simp add: c q u i built_event_log_ts built_event_log_js PQueue_add_def)
qed

theorem mute_changes_only_the_echo_witness:
  "muteConsole (inst (example_world\<lparr>inst := example_logger\<lparr>muteConsole := JBool True\<rparr>\<rparr>)) = JBool True
   \<and> console (log_ts example_env ''error'' ''boom'' JUndefined
        (example_world\<lparr>inst := example_logger\<lparr>muteConsole := JBool True\<rparr>\<rparr>)) = []
   \<and> console (log_ts example_env ''error'' ''boom'' JUndefined example_world) = [(Error, ''boom'')]
   \<and> pq_tasks (queue (inst (log_ts example_env ''error'' ''boom'' JUndefined
        (example_world\<lparr>inst := example_logger\<lparr>muteConsole := JBool True\<rparr>\<rparr>))))
      = [JObj [(''level'', JStr ''error''), (''fields'', JUndefined), (''message'', JStr ''boom''),
               (''@timestamp'', JStr ''1970-01-01T00:00:00.000Z''), (''@tags'', JArr [JStr ''app''])]]
   \<and> pq_tasks (queue (inst (log_ts example_env ''error'' ''boom'' JUndefined example_world)))
      = [JObj [(''level'', JStr ''error''), (''fields'', JUndefined), (''message'', JStr ''boom''),
               (''@timestamp'', JStr ''1970-01-01T00:00:00.000Z''), (''@tags'', JArr [JStr ''app''])]]"
proof -
  let ?w = "example_world\<lparr>inst := example_logger\<lparr>muteConsole := JBool True\<rparr>\<rparr>"
  have h: "muteConsole (inst ?w) = JBool True" by simp
  have u: "unmuted ?w = example_world"
    by (simp add: unmuted_def example_world_def example_logger_def)
  have i: "inst example_world = example_logger" "console example_world = []"
    "pq_tasks (queue example_logger) = []" "muteConsole example_logger = JBool False"
    by (simp_all add: example_world_def example_logger_def)
  have c: "console (log_ts example_env ''error'' ''boom'' JUndefined example_world)
             = [(Error, ''boom'')]"
    by (simp add: log_ts_def Let_def i)
  have t: "pq_tasks (queue (inst (log_ts example_env ''error'' ''boom'' JUndefined example_world)))
      = [JObj [(''level'', JStr ''error''), (''fields'', JUndefined), (''message'', JStr ''boom''),
               (''@timestamp'', JStr ''1970-01-01T00:00:00.000Z''), (''@tags'', JArr [JStr ''app''])]]"
    by (simp add: log_ts_tasks i example_event_ts)
  have b: "built_event (log_ts example_env ''error'' ''boom'' JUndefined example_world)
      = JObj [(''level'', JStr ''error''), (''fields'', JUndefined), (''message'', JStr ''boom''),
               (''@timestamp'', JStr ''1970-01-01T00:00:00.000Z''), (''@tags'', JArr [JStr ''app''])]"
    by (simp add: built_event_log_ts i example_event_ts)
  from mute_changes_only_the_echo [OF h, of example_env "''error''" "''boom''" JUndefined]
  show ?thesis
    by (simp add: u i c t b)
qed

subsection \<open>\<open>error\<close>\<close>




subsection \<open>The two files compared\<close>









subsection \<open>The transport\<close>

text \<open>
  C4. Whatever the client does with the request, \<open>_sendEvent\<close> resolves and never
  rejects. When the client rejects, it resolves to undefined after one warning that
  names the error. Hence every task that a call of \<open>log\<close> or \<open>error\<close> (and so of \<open>debug\<close>,
  \<open>info\<close> and \<open>warn\<close>) leaves in the queue resolves when it is run, whatever the
  transport does: no failure of the transport reaches the queue or the caller.
\<close>

theorem sendEvent_swallows_failures:
  "(\<exists>v. fst (sendEvent_ts http s ev out) = Resolved v)
   \<and> (\<exists>v. fst (sendEvent_js http s ev out) = Resolved v)
   \<and> (http (client s)
          \<lparr>req_url = url s, req_method = ''POST'',
           req_headers = [(''Content-Type'', ''application/json'')], req_data = ev\<rparr>
        = Rejected msg \<longrightarrow>
         sendEvent_ts http s ev out
           = (Resolved JUndefined,
              out @ [(Warn, ''Could not send message to Logstash - ['' @ msg @ '']'')])
       \<and> sendEvent_js http s ev out
           = (Resolved JUndefined,
              out @ [(Warn, ''Could not send message to Logstash - ['' @ msg @ '']'')]))
   \<and> (\<forall>t \<in> set (pq_tasks (queue (inst (log_ts e lvl m f w)))).
         \<exists>v. fst (sendEvent_ts http (inst (log_ts e lvl m f w)) t out) = Resolved v)
   \<and> (\<forall>t \<in> set (pq_tasks (queue (inst (log_js e lvl m f w)))).
         \<exists>v. fst (sendEvent_js http (inst (log_js e lvl m f w)) t out) = Resolved v)
   \<and> (\<forall>t \<in> set (pq_tasks (queue (inst (error_ts e err f w)))).
         \<exists>v. fst (sendEvent_ts http (inst (error_ts e err f w)) t out) = Resolved v)
   \<and> (\<forall>t \<in> set (pq_tasks (queue (inst (error_js e err f w)))).
         \<exists>v. fst (sendEvent_js http (inst (error_js e err f w)) t out) = Resolved v)"
proof -
  have r: "\<exists>v. fst (sendEvent_ts http s ev out) = Resolved v"
    "\<exists>v. fst (sendEvent_js http s ev out) = Resolved v" for s ev
    by (simp_all add: sendEvent_ts_def sendEvent_js_def split: settled.splits)
  show ?thesis
    using r by (auto simp: sendEvent_ts_def sendEvent_js_def)
qed

theorem sendEvent_swallows_failures_witness:
  "(\<lambda>c rq. Rejected ''Network Error'') (client example_logger)
      \<lparr>req_url = url example_logger, req_method = ''POST'',
       req_headers = [(''Content-Type'', ''application/json'')], req_data = JObj []\<rparr>
     = Rejected ''Network Error''
   \<and> sendEvent_ts (\<lambda>c rq. Rejected ''Network Error'') example_logger (JObj []) []
     = (Resolved JUndefined, [(Warn, ''Could not send message to Logstash - [Network Error]'')])
   \<and> sendEvent_js (\<lambda>c rq. Rejected ''Network Error'') example_logger (JObj []) []
     = (Resolved JUndefined, [(Warn, ''Could not send message to Logstash - [Network Error]'')])
   \<and> built_event (log_ts example_env ''error'' ''boom'' JUndefined example_world)
       \<in> set (pq_tasks (queue (inst (log_ts example_env ''error'' ''boom'' JUndefined example_world))))
   \<and> (\<exists>v. fst (sendEvent_ts (\<lambda>c rq. Rejected ''Network Error'')
               (inst (log_ts example_env ''error'' ''boom'' JUndefined example_world))
               (built_event (log_ts example_env ''error'' ''boom'' JUndefined example_world)) [])
             = Resolved v)"
proof -
  have m: "built_event (log_ts example_env ''error'' ''boom'' JUndefined example_world)
       \<in> set (pq_tasks (queue (inst (log_ts example_env ''error'' ''boom'' JUndefined example_world))))"
    by (simp add: log_ts_tasks built_event_log_ts)
  from sendEvent_swallows_failures
    [of "\<lambda>c rq. Rejected ''Network Error''" example_logger "JObj []" "[]" "''Network Error''"
        example_env "''error''" "''boom''" JUndefined example_world] m
  show ?thesis by simp
qed

text \<open>
  The retry loop stops at the first attempt that succeeds, and makes one attempt more
  than it has retries when every attempt fails, waiting the same delay before each
  retry.
\<close>

lemma retry_loop_all_fail:
  "(\<And>j. net j = Rejected (msg j)) \<Longrightarrow>
   retry_loop net d k i = (Rejected (msg (i + k)), Suc (i + k), replicate k d)"
  by (induction k arbitrary: i) simp_all

lemma retry_loop_succeeds:
  "(\<And>j. i \<le> j \<Longrightarrow> j < i + n \<Longrightarrow> net j = Rejected (msg j)) \<Longrightarrow> net (i + n) = Resolved r
   \<Longrightarrow> n \<le> k \<Longrightarrow> retry_loop net d k i = (Resolved r, Suc (i + n), replicate n d)"
proof (induction k arbitrary: i n)
  case 0
  then show ?case by simp
next
  case (Suc k)
  show ?case
  proof (cases n)
    case 0
    with Suc.prems show ?thesis by simp
  next
    case (Suc n')
    have f: "net i = Rejected (msg i)" using Suc.prems(1) [of i] Suc by simp
    have "retry_loop net d k (Suc i) = (Resolved r, Suc (Suc i + n'), replicate n' d)"
    proof (rule Suc.IH)
      fix j assume "Suc i \<le> j" "j < Suc i + n'"
      then show "net j = Rejected (msg j)" using Suc.prems(1) [of j] Suc by simp
    next
      show "net (Suc i + n') = Resolved r" using Suc.prems(2) Suc by simp
    next
      show "n' \<le> k" using Suc.prems(3) Suc by simp
    qed
    with f Suc show ?thesis by simp
  qed
qed

text \<open>
  C2. For a constructed logger and a network on which every attempt of the POST of an
  event fails, the client makes \<open>maxRetries + 1\<close> attempts, 11 in all, waits \<open>retryDelay\<close>
  before each of the \<open>maxRetries\<close> retries, and ends with the error of the last attempt;
  \<open>_sendEvent\<close> then writes exactly one warning, which names that error, and resolves.
  When the first \<open>n\<close> attempts fail, with \<open>n\<close> at most \<open>maxRetries\<close>, and the next one
  succeeds, the client makes \<open>n + 1\<close> attempts, waits \<open>retryDelay\<close> before each retry, and
  \<open>_sendEvent\<close> resolves to the response with no warning.
\<close>

theorem failing_transport_is_tried_eleven_times:
  assumes "Logstash_ts This_fresh u tgs lvl options = Inr s
           \<or> Logstash_js u tgs lvl options = Inr s"
  shows "((\<forall>i. net (post_request s ev) i = Rejected (msg i)) \<longrightarrow>
        retrying_client net (client s) (post_request s ev)
           = (Rejected (msg (retries_of (maxRetries s))), retries_of (maxRetries s) + 1,
              replicate (retries_of (maxRetries s)) (retryDelay s))
      \<and> retries_of (maxRetries s) + 1 = 11
      \<and> sendEvent_ts (\<lambda>c rq. fst (retrying_client net c rq)) s ev out
          = (Resolved JUndefined,
             out @ [(Warn, ''Could not send message to Logstash - ['' @ msg 10 @ '']'')])
      \<and> sendEvent_js (\<lambda>c rq. fst (retrying_client net c rq)) s ev out
          = (Resolved JUndefined,
             out @ [(Warn, ''Could not send message to Logstash - ['' @ msg 10 @ '']'')]))
    \<and> ((\<forall>i < n. net (post_request s ev) i = Rejected (msg i))
         \<and> net (post_request s ev) n = Resolved r \<and> n \<le> retries_of (maxRetries s) \<longrightarrow>
        retrying_client net (client s) (post_request s ev)
           = (Resolved r, n + 1, replicate n (retryDelay s))
      \<and> sendEvent_ts (\<lambda>c rq. fst (retrying_client net c rq)) s ev out = (Resolved r, out)
      \<and> sendEvent_js (\<lambda>c rq. fst (retrying_client net c rq)) s ev out = (Resolved r, out))"
proof -
  have c: "maxRetries s = JNum 10 \<and> cl_retries (client s) = maxRetries s
         \<and> cl_retryDelay (client s) = retryDelay s"
    using assms constructed_ts [of u tgs lvl options s] constructed_js [of u tgs lvl options s]
    by blast
  have fail: "retrying_client net (client s) (post_request s ev)
             = (Rejected (msg 10), 11, replicate 10 (retryDelay s))"
    if "\<forall>i. net (post_request s ev) i = Rejected (msg i)"
    using c that retry_loop_all_fail [of "net (post_request s ev)" msg "retryDelay s" 10 0]
    by (simp add: retrying_client_def)
  have ok: "retrying_client net (client s) (post_request s ev)
             = (Resolved r, n + 1, replicate n (retryDelay s))"
    if "\<forall>i < n. net (post_request s ev) i = Rejected (msg i)"
      "net (post_request s ev) n = Resolved r" "n \<le> retries_of (maxRetries s)"
    using c that retry_loop_succeeds [of 0 n "net (post_request s ev)" msg r 10 "retryDelay s"]
    by (simp add: retrying_client_def)
  show ?thesis
    using fail ok c
    by (auto simp: sendEvent_ts_def sendEvent_js_def post_request_def [symmetric])
qed

theorem failing_transport_is_tried_eleven_times_witness:
  "(Logstash_ts This_fresh (Some ''http://localhost:9200'') (Some [''app'']) None None
      = Inr example_logger
    \<or> Logstash_js (Some ''http://localhost:9200'') (Some [''app'']) None None
      = Inr example_logger)
   \<and> (\<forall>i. (\<lambda>rq i. Rejected ''Network Error'') (post_request example_logger (JObj [])) i
          = Rejected ((\<lambda>i. ''Network Error'') i))
   \<and> retrying_client (\<lambda>rq i. Rejected ''Network Error'') (client example_logger)
        (post_request example_logger (JObj []))
      = (Rejected ''Network Error'', 11, replicate 10 (JNum 10000))
   \<and> sendEvent_ts (\<lambda>c rq. fst (retrying_client (\<lambda>rq i. Rejected ''Network Error'') c rq))
        example_logger (JObj []) []
      = (Resolved JUndefined, [(Warn, ''Could not send message to Logstash - [Network Error]'')])
   \<and> (\<lambda>rq (i::nat). if i < 2 then Rejected ''timeout'' else Resolved (JNum 200))
          (post_request example_logger (JObj [])) 0 = Rejected ''timeout''
   \<and> (\<lambda>rq (i::nat). if i < 2 then Rejected ''timeout'' else Resolved (JNum 200))
          (post_request example_logger (JObj [])) 1 = Rejected ''timeout''
   \<and> (\<lambda>rq (i::nat). if i < 2 then Rejected ''timeout'' else Resolved (JNum 200))
          (post_request example_logger (JObj [])) (2::nat) = Resolved (JNum 200)
   \<and> (2::nat) \<le> retries_of (maxRetries example_logger)
   \<and> retrying_client (\<lambda>rq (i::nat). if i < 2 then Rejected ''timeout'' else Resolved (JNum 200))
        (client example_logger) (post_request example_logger (JObj []))
      = (Resolved (JNum 200), 3, [JNum 10000, JNum 10000])
   \<and> sendEvent_js
        (\<lambda>c rq. fst (retrying_client
           (\<lambda>rq (i::nat). if i < 2 then Rejected ''timeout'' else Resolved (JNum 200)) c rq))
        example_logger (JObj []) []
      = (Resolved (JNum 200), [])"
proof -
  have a: "Logstash_ts This_fresh (Some ''http://localhost:9200'') (Some [''app'']) None None
      = Inr example_logger
    \<or> Logstash_js (Some ''http://localhost:9200'') (Some [''app'']) None None
      = Inr example_logger"
    using create_js_example by (simp add: create_js_def)
  have c: "maxRetries example_logger = JNum 10" "retryDelay example_logger = JNum 10000"
    by (simp_all add: example_logger_def)
  have r: "replicate 2 (JNum 10000) = [JNum 10000, JNum 10000]"
    by (simp add: numeral_2_eq_2)
  from failing_transport_is_tried_eleven_times [OF a,
      where net = "\<lambda>rq i. Rejected ''Network Error''" and msg = "\<lambda>i. ''Network Error''"
        and ev = "JObj []" and out = "[]"]
    failing_transport_is_tried_eleven_times [OF a,
      where net = "\<lambda>rq (i::nat). if i < 2 then Rejected ''timeout'' else Resolved (JNum 200)"
        and msg = "\<lambda>i. ''timeout''" and ev = "JObj []" and out = "[]" and n = 2
        and r = "JNum 200"]
    a
  show ?thesis by (simp add: c r)
qed

subsection \<open>The timestamp\<close>

text \<open>
  What \<open>toISOString\<close> prints for a time value, the parser of the same format reads back
  as that time value. The steps: the year found by the search brackets the day; the
  month and the day of the month are in range and add up to the day of the year; the
  hours, minutes, seconds and milliseconds add up to the time within the day; and each
  number printed with leading zeros is read back.
\<close>

lemma year_search_bracket:
  "DayFromYear (year_search d y) \<le> d \<and> d < DayFromYear (year_search d y + 1)"
proof (induction d y rule: year_search.induct)
  case (1 d y)
  show ?case
  proof (cases "DayFromYear (y + 1) \<le> d")
    case True
    then have "year_search d y = year_search d (y + 1)"
      by (subst year_search.simps) simp
    with 1(1) [OF True] show ?thesis by simp
  next
    case False
    show ?thesis
    proof (cases "d < DayFromYear y")
      case True
      with False have "year_search d y = year_search d (y - 1)"
        by (subst year_search.simps) simp
      with 1(2) [OF False True] show ?thesis by simp
    next
      case ge: False
      with False have "year_search d y = y"
        by (subst year_search.simps) simp
      with False ge show ?thesis by simp
    qed
  qed
qed

lemma time_within_day:
  fixes t :: int
  shows "t mod 86400000 =
     ((t div 3600000) mod 24) * 3600000 + ((t div 60000) mod 60) * 60000
       + ((t div 1000) mod 60) * 1000 + t mod 1000"
proof -
  have a: "t mod 60000 = 1000 * ((t div 1000) mod 60) + t mod 1000"
    using zmod_zmult2_eq [of 60 t 1000] by simp
  have b: "t mod 3600000 = 60000 * ((t div 60000) mod 60) + t mod 60000"
    using zmod_zmult2_eq [of 60 t 60000] by simp
  have c: "t mod 86400000 = 3600000 * ((t div 3600000) mod 24) + t mod 3600000"
    using zmod_zmult2_eq [of 24 t 3600000] by simp
  show ?thesis unfolding c b a by (simp only: mult.commute add.assoc)
qed

lemma month_date_of_day:
  fixes d l :: int
  assumes "l = 0 \<or> l = 1" "0 \<le> d" "d < 365 + l"
  shows "0 \<le> month_of_day d l \<and> month_of_day d l \<le> 11
    \<and> 1 \<le> date_of_day d l \<and> date_of_day d l \<le> DaysInMonth (month_of_day d l) l
    \<and> days_before_month (month_of_day d l) l + date_of_day d l - 1 = d"
  using assms
  by (auto simp: month_of_day_def date_of_day_def DaysInMonth_def days_before_month_def Let_def)

lemma div_bounds:
  fixes x k :: int
  assumes "0 < k"
  shows "k * (x div k) \<le> x" "x < k * (x div k) + k"
proof -
  have "x = k * (x div k) + x mod k" by simp
  moreover have "0 \<le> x mod k" "x mod k < k" using assms by simp_all
  ultimately show "k * (x div k) \<le> x" "x < k * (x div k) + k" by linarith+
qed

lemma DayFromYear_bounds:
  "400 * DayFromYear y \<le> 146097 * (y - 1970) + 1000"
  "146097 * (y - 1970) - 1000 \<le> 400 * DayFromYear y"
proof -
  define a b c where "a = (y - 1969) div 4" and "b = (y - 1901) div 100"
    and "c = (y - 1601) div 400"
  have d: "DayFromYear y = 365 * (y - 1970) + a - b + c"
    by (simp add: DayFromYear_def a_def b_def c_def)
  have ba: "4 * a \<le> y - 1969" "y - 1969 < 4 * a + 4"
    using div_bounds [of 4 "y - 1969"] by (simp_all add: a_def)
  have bb: "100 * b \<le> y - 1901" "y - 1901 < 100 * b + 100"
    using div_bounds [of 100 "y - 1901"] by (simp_all add: b_def)
  have bc: "400 * c \<le> y - 1601" "y - 1601 < 400 * c + 400"
    using div_bounds [of 400 "y - 1601"] by (simp_all add: c_def)
  show "400 * DayFromYear y \<le> 146097 * (y - 1970) + 1000"
    unfolding d using ba bb bc by (simp add: algebra_simps)
  show "146097 * (y - 1970) - 1000 \<le> 400 * DayFromYear y"
    unfolding d using ba bb bc by (simp add: algebra_simps)
qed

lemma digit_char_all:
  assumes "d < 10"
  shows "is_digit (digit_char d) \<and> digit_val (digit_char d) = d
    \<and> digit_char d \<noteq> CHR ''+'' \<and> digit_char d \<noteq> CHR ''-''"
proof -
  from assms have "d \<in> {0, 1, 2, 3, 4, 5, 6, 7, 8, 9}" by auto
  then show ?thesis
    by (elim insertE emptyE) (simp_all add: digit_char_def is_digit_def digit_val_def)
qed

lemma digit_char_props:
  assumes "d < 10"
  shows "is_digit (digit_char d)" "digit_val (digit_char d) = d"
    "digit_char d \<noteq> CHR ''+''" "digit_char d \<noteq> CHR ''-''"
  using digit_char_all [OF assms] by simp_all

lemma length_pad [simp]: "length (pad k n) = k"
  by (induction k arbitrary: n) simp_all

lemma pad_digits: "list_all is_digit (pad k n)"
  by (induction k arbitrary: n) (simp_all add: digit_char_props)

lemma pad_value: "foldl (\<lambda>a c. 10 * a + digit_val c) 0 (pad k n) = n mod 10 ^ k"
proof (induction k arbitrary: n)
  case 0
  then show ?case by simp
next
  case (Suc k)
  have "n mod (10 * 10 ^ k) = 10 * (n div 10 mod 10 ^ k) + n mod 10"
    by (rule mod_mult2_eq)
  with Suc show ?case by (simp add: digit_char_props)
qed

lemma number_pad:
  "n < 10 ^ k \<Longrightarrow> number k (pad k n @ rest) = Some (n, rest)"
  by (simp add: number_def pad_digits pad_value)

lemma expect_Cons [simp]: "expect c (c # rest) = Some rest"
  by (simp add: expect_def)

lemma pad_first:
  "pad (Suc k) n = digit_char ((n div 10 ^ k) mod 10) # pad k (n mod 10 ^ k)"
proof (induction k arbitrary: n)
  case 0
  then show ?case by simp
next
  case (Suc k)
  have a: "n div 10 div 10 ^ k = n div 10 ^ Suc k"
    by (simp add: div_mult2_eq)
  have b: "pad k (n div 10 mod 10 ^ k) @ [digit_char (n mod 10)] = pad (Suc k) (n mod 10 ^ Suc k)"
  proof -
    have "n mod 10 ^ Suc k div 10 = n div 10 mod 10 ^ k"
      by (simp add: mod_mult2_eq)
    moreover have "n mod 10 ^ Suc k mod 10 = n mod 10"
      by (simp add: mod_mod_cancel)
    ultimately show ?thesis by simp
  qed
  have "pad (Suc (Suc k)) n = pad (Suc k) (n div 10) @ [digit_char (n mod 10)]"
    by (rule pad.simps(2))
  also have "\<dots> = (digit_char (n div 10 div 10 ^ k mod 10) # pad k (n div 10 mod 10 ^ k))
                 @ [digit_char (n mod 10)]"
    by (simp only: Suc.IH)
  also have "\<dots> = digit_char (n div 10 ^ Suc k mod 10) # pad (Suc k) (n mod 10 ^ Suc k)"
    unfolding a b [symmetric] by simp
  finally show ?case .
qed

lemma parse_year_neg:
  assumes "n < 10 ^ 6" "n \<noteq> 0"
  shows "parse_year (CHR ''-'' # pad 6 n @ rest) = Some (- int n, rest)"
  using assms by (simp add: parse_year_def number_pad del: pad.simps)

lemma parse_year_pos:
  assumes "n < 10 ^ 6"
  shows "parse_year (CHR ''+'' # pad 6 n @ rest) = Some (int n, rest)"
  using assms by (simp add: parse_year_def number_pad del: pad.simps)

lemma parse_year_four:
  assumes "n < 10 ^ 4"
  shows "parse_year (pad 4 n @ rest) = Some (int n, rest)"
proof -
  have e: "Suc 3 = 4" by simp
  have p: "pad 4 n = digit_char ((n div 10 ^ 3) mod 10) # pad 3 (n mod 10 ^ 3)"
    using pad_first [of 3 n] unfolding e .
  define c where "c = digit_char ((n div 10 ^ 3) mod 10)"
  define cs where "cs = pad 3 (n mod 10 ^ 3) @ rest"
  have s: "pad 4 n @ rest = c # cs" by (simp only: p c_def cs_def append_Cons)
  have c: "c \<noteq> CHR ''+''" "c \<noteq> CHR ''-''"
    by (simp_all add: c_def digit_char_props)
  have "parse_year (c # cs) = map_option (\<lambda>(n, r). (int n, r)) (number 4 (c # cs))"
    by (simp add: parse_year_def c)
  then show ?thesis
    using assms by (simp only: s [symmetric] number_pad) simp
qed

lemma parse_year_string:
  assumes "- 1000000 < y" "y < 1000000"
  shows "parse_year (year_string y @ rest) = Some (y, rest)"
proof -
  consider (four) "0 \<le> y" "y \<le> 9999" | (neg) "y < 0" | (pos) "9999 < y" by linarith
  then show ?thesis
  proof cases
    case four
    then have "nat y < 10 ^ 4" by simp
    from parse_year_four [OF this, of rest] four show ?thesis
      by (simp add: year_string_def)
  next
    case neg
    then have "nat (- y) < 10 ^ 6" "nat (- y) \<noteq> 0" using assms by simp_all
    from parse_year_neg [OF this, of rest] neg show ?thesis
      by (simp add: year_string_def)
  next
    case pos
    then have "nat y < 10 ^ 6" using assms by simp
    from parse_year_pos [OF this, of rest] pos show ?thesis
      by (simp add: year_string_def)
  qed
qed

lemma YearFromTime_bracket:
  "DayFromYear (YearFromTime t) \<le> Day t \<and> Day t < DayFromYear (YearFromTime t + 1)"
  unfolding YearFromTime_def by (rule year_search_bracket)

lemma Day_range:
  assumes "valid_time t"
  shows "- 100000000 \<le> Day t" "Day t \<le> 100000000"
proof -
  define D where "D = Day t"
  have "86400000 * D \<le> t" "t < 86400000 * D + 86400000"
    using div_bounds [of 86400000 t] by (simp_all add: D_def Day_def msPerDay_def)
  with assms show "- 100000000 \<le> Day t" "Day t \<le> 100000000"
    unfolding D_def [symmetric] valid_time_def by linarith+
qed

lemma YearFromTime_range:
  assumes "valid_time t"
  shows "- 1000000 < YearFromTime t" "YearFromTime t < 1000000"
proof -
  define y where "y = YearFromTime t"
  define D where "D = Day t"
  define F where "F = DayFromYear y"
  define G where "G = DayFromYear (y + 1)"
  have d: "- 100000000 \<le> D" "D \<le> 100000000"
    using Day_range [OF assms] by (simp_all add: D_def)
  have b: "F \<le> D" "D < G"
    using YearFromTime_bracket [of t] by (simp_all add: y_def D_def F_def G_def)
  have f: "146097 * (y - 1970) - 1000 \<le> 400 * F"
    using DayFromYear_bounds(2) [of y] by (simp add: F_def)
  have g: "400 * G \<le> 146097 * (y + 1 - 1970) + 1000"
    using DayFromYear_bounds(1) [of "y + 1"] by (simp add: G_def)
  have f': "146097 * y \<le> 400 * F + 287812090"
    using f by (simp add: algebra_simps)
  have g': "400 * G \<le> 146097 * y - 287663993"
    using g by (simp add: algebra_simps)
  from d b f' have "y < 1000000" by linarith
  moreover from d b g' have "- 1000000 < y" by linarith
  ultimately show "- 1000000 < YearFromTime t" "YearFromTime t < 1000000"
    by (simp_all add: y_def)
qed

lemma toISOString_parses:
  assumes "valid_time t"
  shows "Date_parse (toISOString t) = Some t"
proof -
  define y where "y = YearFromTime t"
  define l :: int where "l = (if DaysInYear y = 366 then 1 else 0)"
  define d where "d = DayWithinYear t"
  define mo where "mo = month_of_day d l"
  define dt where "dt = date_of_day d l"
  define h where "h = HourFromTime t"
  define mi where "mi = MinFromTime t"
  define sec where "sec = SecFromTime t"
  define ms where "ms = msFromTime t"
  have yr: "- 1000000 < y" "y < 1000000"
    using YearFromTime_range [OF assms] by (simp_all add: y_def)
  have br: "DayFromYear y \<le> Day t" "Day t < DayFromYear y + DaysInYear y"
    using YearFromTime_bracket [of t] by (simp_all add: y_def DayFromYear_Suc)
  have l01: "l = 0 \<or> l = 1" by (simp add: l_def)
  have dr: "0 \<le> d" "d < 365 + l"
    using br by (auto simp: d_def DayWithinYear_def y_def l_def DaysInYear_def split: if_splits)
  note md = month_date_of_day [OF l01 dr, folded mo_def dt_def]
  have tr: "0 \<le> h" "h < 24" "0 \<le> mi" "mi < 60" "0 \<le> sec" "sec < 60" "0 \<le> ms" "ms < 1000"
    by (simp_all add: h_def mi_def sec_def ms_def HourFromTime_def MinFromTime_def
        SecFromTime_def msFromTime_def)
  have s: "toISOString t =
     year_string y @ CHR ''-'' # pad 2 (nat (mo + 1)) @ CHR ''-''
       # pad 2 (nat dt) @ CHR ''T'' # pad 2 (nat h) @ CHR '':''
       # pad 2 (nat mi) @ CHR '':'' # pad 2 (nat sec) @ CHR ''.''
       # pad 3 (nat ms) @ ''Z''"
    by (simp add: toISOString_def y_def mo_def dt_def h_def mi_def sec_def ms_def d_def l_def
        MonthFromTime_def DateFromTime_def InLeapYear_def del: pad.simps)
  have n: "nat (mo + 1) < 10 ^ 2" "nat dt < 10 ^ 2" "nat h < 10 ^ 2" "nat mi < 10 ^ 2"
    "nat sec < 10 ^ 2" "nat ms < 10 ^ 3"
    using md tr l01 by (auto simp: DaysInMonth_def split: if_splits)
  have v: "MakeDate (MakeDay y mo dt) (MakeTime h mi sec ms) = t"
  proof -
    have "MakeDay y mo dt = Day t"
      using md by (simp add: MakeDay_def l_def d_def DayWithinYear_def y_def)
    moreover have "MakeTime h mi sec ms = t mod 86400000"
      unfolding MakeTime_def h_def mi_def sec_def ms_def HourFromTime_def MinFromTime_def
        SecFromTime_def msFromTime_def
      by (rule time_within_day [symmetric])
    ultimately show ?thesis
      by (simp add: MakeDate_def Day_def msPerDay_def)
  qed
  have c: "1 \<le> nat (mo + 1)" "nat (mo + 1) \<le> 12" "1 \<le> nat dt"
    "nat h \<le> 23" "nat mi \<le> 59" "nat sec \<le> 59"
    "int (nat (mo + 1)) - 1 = mo" "int (nat dt) = dt" "int (nat h) = h" "int (nat mi) = mi"
    "int (nat sec) = sec" "int (nat ms) = ms" "dt \<le> DaysInMonth mo l"
    using md tr by auto
  have p: "number 2 (pad 2 (nat (mo + 1)) @ r) = Some (nat (mo + 1), r)"
    "number 2 (pad 2 (nat dt) @ r) = Some (nat dt, r)"
    "number 2 (pad 2 (nat h) @ r) = Some (nat h, r)"
    "number 2 (pad 2 (nat mi) @ r) = Some (nat mi, r)"
    "number 2 (pad 2 (nat sec) @ r) = Some (nat sec, r)"
    "number 3 (pad 3 (nat ms) @ r) = Some (nat ms, r)" for r
    using n by (simp_all only: number_pad)
  show ?thesis
    unfolding s Date_parse_def
    by (simp only: parse_year_string [OF yr] p expect_Cons bind.bind_lunit prod.case
        l_def [symmetric] c v simp_thms if_True)
qed

lemma stamps_of_log_event_ts:
  "map_of (log_event_ts e this lvl message flds) ''@timestamp'' = Some (JStr (toISOString (now e)))
   \<and> map_of (log_event_ts e this lvl message flds) ''@tags'' = Some (JArr (map JStr (tags this)))"
  by (cases "navigator e"; cases "location e")
     (simp_all add: log_event_ts_def Let_def map_of_set_prop)

lemma stamps_of_log_event_js:
  "map_of (log_event_js e this lvl message flds) ''@timestamp'' = Some (JStr (toISOString (now e)))
   \<and> map_of (log_event_js e this lvl message flds) ''@tags'' = Some (JArr (map JStr (tags this)))"
  by (cases "navigator e"; cases "location e")
     (simp_all add: log_event_js_def Let_def map_of_set_prop)

text \<open>
  C7. For every level, message, fields, logger and environment whose clock reading is a
  time value, the event \<open>log\<close> builds has an \<open>@timestamp\<close> property, the ISO-8601 text of
  the clock reading at the call, which parses back to that reading, and an \<open>@tags\<close>
  property, the array of the tags of the logger.
\<close>

theorem event_is_stamped:
  assumes "valid_time (now e)"
  shows "(\<exists>ev. built_event (log_ts e lvl message flds w) = JObj ev
            \<and> map_of ev ''@timestamp'' = Some (JStr (toISOString (now e)))
            \<and> map_of ev ''@tags'' = Some (JArr (map JStr (tags (inst w)))))
    \<and> (\<exists>ev. built_event (log_js e lvl message flds w) = JObj ev
            \<and> map_of ev ''@timestamp'' = Some (JStr (toISOString (now e)))
            \<and> map_of ev ''@tags'' = Some (JArr (map JStr (tags (inst w)))))
    \<and> Date_parse (toISOString (now e)) = Some (now e)"
  using toISOString_parses [OF assms]
  by (simp add: built_event_log_ts built_event_log_js stamps_of_log_event_ts
      stamps_of_log_event_js)

lemma toISOString_example: "toISOString 1793625612345 = ''2026-11-02T13:20:12.345Z''"
  by code_simp

theorem event_is_stamped_witness:
  "valid_time (now \<lparr>now = 1793625612345, navigator = None, location = None\<rparr>)
   \<and> built_event (log_ts \<lparr>now = 1793625612345, navigator = None, location = None\<rparr>
         ''info'' ''up'' JUndefined example_world)
      = JObj [(''level'', JStr ''info''), (''fields'', JUndefined), (''message'', JStr ''up''),
              (''@timestamp'', JStr ''2026-11-02T13:20:12.345Z''),
              (''@tags'', JArr [JStr ''app''])]
   \<and> Date_parse ''2026-11-02T13:20:12.345Z'' = Some 1793625612345"
proof -
  have v: "valid_time (now \<lparr>now = 1793625612345, navigator = None, location = None\<rparr>)"
    by (simp add: valid_time_def)
  have b: "built_event (log_ts \<lparr>now = 1793625612345, navigator = None, location = None\<rparr>
         ''info'' ''up'' JUndefined example_world)
      = JObj [(''level'', JStr ''info''), (''fields'', JUndefined), (''message'', JStr ''up''),
              (''@timestamp'', JStr ''2026-11-02T13:20:12.345Z''),
              (''@tags'', JArr [JStr ''app''])]"
    by (simp add: built_event_log_ts log_event_ts_def toISOString_example example_world_def
        example_logger_def set_prop_names)
  from event_is_stamped [OF v, of "''info''" "''up''" JUndefined example_world] v b
  show ?thesis by (simp add: toISOString_example)
qed

end
